theory Spec2Isabelle
  imports Main "HOL-Library.Char_ord" "HOL-Library.List_Lexorder"
begin

section \<open>Data model\<close>

text \<open>
  The repository holds two variants of one Vue application: \<^verbatim>\<open>src/app.js\<close> and
  \<^verbatim>\<open>src/unnamed/part_000\<close>.  Functions that are the same in both files are embedded
  once under the name of the source; where the two files differ, the embedding of
  \<^verbatim>\<open>src/app.js\<close> carries the suffix \<open>_app\<close> and that of \<^verbatim>\<open>src/unnamed/part_000\<close> the
  suffix \<open>_p0\<close>.

  A lesson is a JavaScript object parsed from the JSON the server sends.  The code reads
  the fields \<^verbatim>\<open>_id\<close>, \<^verbatim>\<open>topic\<close>, \<^verbatim>\<open>price\<close> and \<^verbatim>\<open>space\<close> by name and any field through
  \<^verbatim>\<open>a[this.sortBy]\<close>; the remaining fields are those of the item of the specification.
  Numbers are integers here.
\<close>

type_synonym ident = string

record lesson =
  l_id :: ident
  topic :: string
  subject :: string
  location :: string
  price :: int
  space :: int
  image :: string

text \<open>
  \<^verbatim>\<open>this.lessons\<close> and \<^verbatim>\<open>this.cart\<close> are arrays of references to lesson objects, and
  \<^verbatim>\<open>addToCart\<close> pushes the reference it receives, so one object can be reached from both
  arrays.  The objects therefore live in an explicit store, and both arrays hold addresses.
\<close>

type_synonym addr = nat

record checkout_form =
  name :: string
  phone :: string

datatype alert = AlertWarning | AlertSuccess | AlertDanger

record state =
  heap :: "addr \<Rightarrow> lesson"
  nxt :: addr
  lessons :: "addr list"
  cart :: "addr list"
  showCart :: bool
  sortBy :: string
  sortOrder :: string
  searchQuery :: string
  checkout :: checkout_form
  orderMessage :: "alert option"

text \<open>The value of \<^verbatim>\<open>data\<close> when the application is created; no object is allocated yet.\<close>

definition no_lesson :: lesson where
  "no_lesson = \<lparr>l_id = [], topic = [], subject = [], location = [], price = 0, space = 0,
     image = []\<rparr>"

definition data_app :: state where
  "data_app = \<lparr>heap = (\<lambda>_. no_lesson), nxt = 0, lessons = [], cart = [], showCart = False,
     sortBy = ''subject'', sortOrder = ''asc'', searchQuery = [],
     checkout = \<lparr>name = [], phone = []\<rparr>, orderMessage = None\<rparr>"

definition data_p0 :: state where
  "data_p0 = data_app\<lparr>sortBy := ''topic''\<rparr>"

section \<open>Network\<close>

text \<open>
  \<^verbatim>\<open>fetch\<close> either rejects (a network error) or resolves with a response that carries
  the flag \<^verbatim>\<open>ok\<close> and a body.  A response with a non-success status resolves.
\<close>

datatype 'a fetch_result = NetworkError | Response bool 'a

record order_line =
  line_id :: ident
  line_topic :: string
  line_price :: int
  quantity :: int

record order_payload =
  order_name :: string
  order_phone :: string
  order_lessons :: "order_line list"

datatype request = Post order_payload | Put ident int | GetLessons

record network =
  post_result :: "unit fetch_result"
  put_result :: "ident \<Rightarrow> unit fetch_result"
  get_result :: "lesson list fetch_result"

section \<open>Catalog store\<close>

text \<open>
  \<^verbatim>\<open>this.lessons = await response.json()\<close> builds fresh objects and replaces the array;
  the objects of the former array stay in the store, where the cart may still refer to them.
\<close>

primrec new_objects :: "lesson list \<Rightarrow> addr \<Rightarrow> (addr \<Rightarrow> lesson) \<Rightarrow> (addr \<Rightarrow> lesson)" where
  "new_objects [] n h = h"
| "new_objects (l # ls) n h = new_objects ls (Suc n) (h(n := l))"

primrec new_addrs :: "lesson list \<Rightarrow> addr \<Rightarrow> addr list" where
  "new_addrs [] n = []"
| "new_addrs (l # ls) n = n # new_addrs ls (Suc n)"

definition set_lessons :: "lesson list \<Rightarrow> state \<Rightarrow> state" where
  "set_lessons ls st =
     st\<lparr>heap := new_objects ls (nxt st) (heap st), lessons := new_addrs ls (nxt st),
        nxt := nxt st + length ls\<rparr>"

definition fetchLessons :: "lesson list fetch_result \<Rightarrow> state \<Rightarrow> state" where
  "fetchLessons r st =
     (case r of
        NetworkError \<Rightarrow> st
      | Response ok body \<Rightarrow> if \<not> ok then st else set_lessons body st)"

definition handleSearch :: "lesson list fetch_result \<Rightarrow> state \<Rightarrow> state" where
  "handleSearch r st =
     (let st1 = st\<lparr>orderMessage := None\<rparr> in
      if length (searchQuery st1) > 0 then
        (case r of
           NetworkError \<Rightarrow> st1
         | Response ok body \<Rightarrow> if \<not> ok then st1 else set_lessons body st1)
      else fetchLessons r st1)"

section \<open>Cart\<close>

text \<open>\<^verbatim>\<open>addToCart(lesson)\<close>, the same in both files.\<close>

definition addToCart :: "addr \<Rightarrow> state \<Rightarrow> state" where
  "addToCart lesson st =
     (if space (heap st lesson) > 0 then
        st\<lparr>cart := cart st @ [lesson],
           heap := (heap st)(lesson := (heap st lesson)\<lparr>space := space (heap st lesson) - 1\<rparr>)\<rparr>
      else st)"

text \<open>
  \<^verbatim>\<open>xs.splice(index, 1)\<close> for an integer index: a negative index counts from the end, an
  index past the end deletes nothing.
\<close>

definition splice1 :: "int \<Rightarrow> 'a list \<Rightarrow> 'a list" where
  "splice1 i xs =
     (let n = int (length xs);
          s = nat (if i < 0 then max (n + i) 0 else min i n)
      in take s xs @ drop (Suc s) xs)"

text \<open>\<^verbatim>\<open>xs.findIndex(p)\<close>: the first position whose element satisfies \<open>p\<close>, or \<open>-1\<close>.\<close>

fun findIndex :: "('a \<Rightarrow> bool) \<Rightarrow> 'a list \<Rightarrow> int" where
  "findIndex p [] = -1"
| "findIndex p (x # xs) =
     (if p x then 0 else (let r = findIndex p xs in if r = -1 then -1 else r + 1))"

definition add_space :: "addr \<Rightarrow> state \<Rightarrow> state" where
  "add_space l st = st\<lparr>heap := (heap st)(l := (heap st l)\<lparr>space := space (heap st l) + 1\<rparr>)\<rparr>"

text \<open>\<^verbatim>\<open>removeFromCart(item, index)\<close> of \<^verbatim>\<open>src/app.js\<close>.\<close>

definition removeFromCart_app :: "addr \<Rightarrow> int \<Rightarrow> state \<Rightarrow> state" where
  "removeFromCart_app item index st =
     (let lessonIndex = findIndex (\<lambda>l. l_id (heap st l) = l_id (heap st item)) (lessons st);
          st1 = (if lessonIndex \<noteq> -1 then add_space (lessons st ! nat lessonIndex) st else st);
          st2 = st1\<lparr>cart := splice1 index (cart st1)\<rparr>
      in if length (cart st2) = 0 then st2\<lparr>orderMessage := None\<rparr> else st2)"

text \<open>\<^verbatim>\<open>removeFromCart(item, index)\<close> of \<^verbatim>\<open>src/unnamed/part_000\<close>.\<close>

definition removeFromCart_p0 :: "addr \<Rightarrow> int \<Rightarrow> state \<Rightarrow> state" where
  "removeFromCart_p0 item index st =
     (let lessonInStore = find (\<lambda>l. l_id (heap st l) = l_id (heap st item)) (lessons st);
          st1 = (case lessonInStore of Some l \<Rightarrow> add_space l st | None \<Rightarrow> st);
          st2 = st1\<lparr>cart := splice1 index (cart st1)\<rparr>
      in if length (cart st2) = 0 then st2\<lparr>showCart := False\<rparr> else st2)"

section \<open>Sort engine\<close>

text \<open>
  \<^verbatim>\<open>a[this.sortBy]\<close>: the value of a field chosen by name, \<^verbatim>\<open>undefined\<close> for a name the
  object does not have.
\<close>

datatype jsval = JString string | JNumber int | JUndefined

definition field :: "string \<Rightarrow> lesson \<Rightarrow> jsval" where
  "field f a =
     (if f = ''_id'' then JString (l_id a)
      else if f = ''topic'' then JString (topic a)
      else if f = ''subject'' then JString (subject a)
      else if f = ''location'' then JString (location a)
      else if f = ''price'' then JNumber (price a)
      else if f = ''space'' then JNumber (space a)
      else if f = ''image'' then JString (image a)
      else JUndefined)"

text \<open>\<^verbatim>\<open>toLowerCase\<close> on the ASCII letters; every other character is kept.\<close>

definition lower_char :: "char \<Rightarrow> char" where
  "lower_char c =
     (case map_of (zip ''ABCDEFGHIJKLMNOPQRSTUVWXYZ'' ''abcdefghijklmnopqrstuvwxyz'') c of
        Some d \<Rightarrow> d
      | None \<Rightarrow> c)"

definition toLowerCase :: "string \<Rightarrow> string" where
  "toLowerCase s = map lower_char s"

text \<open>\<^verbatim>\<open>(typeof v === 'string') ? v.toLowerCase() : v\<close>\<close>

fun lowered :: "jsval \<Rightarrow> jsval" where
  "lowered (JString s) = JString (toLowerCase s)"
| "lowered v = v"

text \<open>
  \<^verbatim>\<open>valA > valB\<close> and \<^verbatim>\<open>valA < valB\<close>.  Two strings compare by their code units in
  lexicographic order, two numbers by value, and every comparison with \<^verbatim>\<open>undefined\<close>
  is false.  A field of a lesson has one type throughout the catalog, so a string never
  meets a number here; that case is given the value false.
\<close>

fun js_greater :: "jsval \<Rightarrow> jsval \<Rightarrow> bool" where
  "js_greater (JString a) (JString b) = (b < a)"
| "js_greater (JNumber a) (JNumber b) = (b < a)"
| "js_greater _ _ = False"

fun js_less :: "jsval \<Rightarrow> jsval \<Rightarrow> bool" where
  "js_less (JString a) (JString b) = (a < b)"
| "js_less (JNumber a) (JNumber b) = (a < b)"
| "js_less _ _ = False"

text \<open>The comparator passed to \<^verbatim>\<open>sort\<close>; it is the same function in both files.\<close>

definition compareLessons :: "(addr \<Rightarrow> lesson) \<Rightarrow> string \<Rightarrow> string \<Rightarrow> addr \<Rightarrow> addr \<Rightarrow> int" where
  "compareLessons h sby sord a b =
     (let valA = lowered (field sby (h a));
          valB = lowered (field sby (h b));
          comparison = (if js_greater valA valB then 1 else if js_less valA valB then -1 else 0)
      in if sord = ''asc'' then comparison else comparison * -1)"

text \<open>
  \<^verbatim>\<open>Array.prototype.sort(comparator)\<close> is a built-in of the language.  ECMAScript
  requires it to be stable and, for a consistent comparator, to return the elements in
  the comparator's order; the stable insertion sort computes that sequence: an element
  goes in front of the first element that it does not exceed.
\<close>

fun insert_sorted :: "('a \<Rightarrow> 'a \<Rightarrow> int) \<Rightarrow> 'a \<Rightarrow> 'a list \<Rightarrow> 'a list" where
  "insert_sorted c x [] = [x]"
| "insert_sorted c x (y # ys) = (if c x y \<le> 0 then x # y # ys else y # insert_sorted c x ys)"

fun array_sort :: "('a \<Rightarrow> 'a \<Rightarrow> int) \<Rightarrow> 'a list \<Rightarrow> 'a list" where
  "array_sort c [] = []"
| "array_sort c (x # xs) = insert_sorted c x (array_sort c xs)"

text \<open>
  \<^verbatim>\<open>sortedLessons\<close> of \<^verbatim>\<open>src/app.js\<close>: \<^verbatim>\<open>filtered\<close> is \<^verbatim>\<open>this.lessons\<close> itself, and
  \<^verbatim>\<open>sort\<close> sorts the array it is called on.  The result is the returned array and the
  state after the call.
\<close>

definition sortedLessons_app :: "state \<Rightarrow> addr list \<times> state" where
  "sortedLessons_app st =
     (let filtered = array_sort (compareLessons (heap st) (sortBy st) (sortOrder st)) (lessons st)
      in (filtered, st\<lparr>lessons := filtered\<rparr>))"

text \<open>
  \<^verbatim>\<open>sortedLessons\<close> of \<^verbatim>\<open>src/unnamed/part_000\<close>: \<^verbatim>\<open>sorted\<close> is a new array with the
  elements of \<^verbatim>\<open>this.lessons\<close>.
\<close>

definition sortedLessons_p0 :: "state \<Rightarrow> addr list \<times> state" where
  "sortedLessons_p0 st =
     (let sorted = array_sort (compareLessons (heap st) (sortBy st) (sortOrder st)) (lessons st)
      in (sorted, st))"

section \<open>Order submission\<close>

text \<open>The order payload of \<^verbatim>\<open>src/app.js\<close>.\<close>

definition orderPayload_app :: "state \<Rightarrow> order_payload" where
  "orderPayload_app st =
     \<lparr>order_name = name (checkout st),
      order_phone = phone (checkout st),
      order_lessons =
        map (\<lambda>item.
              \<lparr>line_id = l_id (heap st item),
               line_topic = topic (heap st item),
               line_price = price (heap st item),
               quantity =
                 int (length (filter (\<lambda>c. l_id (heap st c) = l_id (heap st item)) (cart st)))\<rparr>)
          (cart st)\<rparr>"

text \<open>The order payload of \<^verbatim>\<open>src/unnamed/part_000\<close>.\<close>

definition orderPayload_p0 :: "state \<Rightarrow> order_payload" where
  "orderPayload_p0 st =
     \<lparr>order_name = name (checkout st),
      order_phone = phone (checkout st),
      order_lessons =
        map (\<lambda>item.
              \<lparr>line_id = l_id (heap st item),
               line_topic = topic (heap st item),
               line_price = price (heap st item),
               quantity = 1\<rparr>)
          (cart st)\<rparr>"

text \<open>
  The calls that the \<^verbatim>\<open>map\<close> of \<^verbatim>\<open>src/app.js\<close> issues: one for each lesson of the
  catalog that occurs in the cart.
\<close>

definition updateRequests_app :: "state \<Rightarrow> request list" where
  "updateRequests_app st =
     concat (map (\<lambda>lesson.
       (let boughtCount =
              length (filter (\<lambda>item. l_id (heap st item) = l_id (heap st lesson)) (cart st))
        in if boughtCount > 0 then
             (let newSpace = space (heap st lesson) - int boughtCount
              in [Put (l_id (heap st lesson)) newSpace])
           else [])) (lessons st))"

text \<open>\<^verbatim>\<open>[...new Set(xs)]\<close>: the elements of \<open>xs\<close> in the order of their first occurrence.\<close>

definition uniq :: "'a list \<Rightarrow> 'a list" where
  "uniq xs = fold (\<lambda>x acc. if x \<in> set acc then acc else acc @ [x]) xs []"

definition uniqueLessonIds :: "state \<Rightarrow> ident list" where
  "uniqueLessonIds st = uniq (map (\<lambda>item. l_id (heap st item)) (cart st))"

text \<open>
  The calls that the \<^verbatim>\<open>map\<close> of \<^verbatim>\<open>src/unnamed/part_000\<close> issues: one for each id of
  \<^verbatim>\<open>uniqueLessonIds\<close> that \<^verbatim>\<open>find\<close> finds in the catalog.
\<close>

definition updateRequests_p0 :: "state \<Rightarrow> request list" where
  "updateRequests_p0 st =
     concat (map (\<lambda>i.
       (case find (\<lambda>l. l_id (heap st l) = i) (lessons st) of
          Some lesson \<Rightarrow> [Put i (space (heap st lesson))]
        | None \<Rightarrow> [])) (uniqueLessonIds st))"

text \<open>
  \<^verbatim>\<open>await Promise.all(updatePromises)\<close> continues when every call has resolved, with
  whatever status, and throws as soon as one call rejects.
\<close>

fun rejects :: "network \<Rightarrow> request \<Rightarrow> bool" where
  "rejects net (Put i s) = (put_result net i = NetworkError)"
| "rejects net r = False"

definition all_resolve :: "network \<Rightarrow> request list \<Rightarrow> bool" where
  "all_resolve net rs = (\<not> list_ex (rejects net) rs)"

text \<open>
  \<^verbatim>\<open>submitOrder\<close> of \<^verbatim>\<open>src/app.js\<close>.  The result is the state when the function and the
  \<^verbatim>\<open>fetchLessons\<close> it starts have finished, and the calls issued, in order.  Of
  \<^verbatim>\<open>orderMessage\<close> the state keeps the alert type.
\<close>

definition submitOrder_app :: "network \<Rightarrow> state \<Rightarrow> state \<times> request list" where
  "submitOrder_app net st =
     (let orderPayload = orderPayload_app st;
          st1 = st\<lparr>orderMessage := Some AlertWarning\<rparr>;
          failed = st1\<lparr>orderMessage := Some AlertDanger\<rparr>
      in case post_result net of
           NetworkError \<Rightarrow> (failed, [Post orderPayload])
         | Response ok body \<Rightarrow>
             if \<not> ok then (failed, [Post orderPayload])
             else
               (let updatePromises = updateRequests_app st1 in
                if \<not> all_resolve net updatePromises
                then (failed, Post orderPayload # updatePromises)
                else
                  (let st2 = st1\<lparr>cart := [], checkout := \<lparr>name = [], phone = []\<rparr>\<rparr>;
                       st3 = fetchLessons (get_result net) st2;
                       st4 = st3\<lparr>showCart := False, orderMessage := Some AlertSuccess\<rparr>
                   in (st4, Post orderPayload # updatePromises @ [GetLessons]))))"

text \<open>
  \<^verbatim>\<open>submitOrder\<close> of \<^verbatim>\<open>src/unnamed/part_000\<close>.  The timer that clears the message three
  seconds later is a later event and not part of the result.
\<close>

definition submitOrder_p0 :: "network \<Rightarrow> state \<Rightarrow> state \<times> request list" where
  "submitOrder_p0 net st =
     (let orderPayload = orderPayload_p0 st;
          st1 = st\<lparr>orderMessage := Some AlertWarning\<rparr>;
          failed = st1\<lparr>orderMessage := Some AlertDanger\<rparr>
      in case post_result net of
           NetworkError \<Rightarrow> (failed, [Post orderPayload])
         | Response ok body \<Rightarrow>
             if \<not> ok then (failed, [Post orderPayload])
             else
               (let updatePromises = updateRequests_p0 st1 in
                if \<not> all_resolve net updatePromises
                then (failed, Post orderPayload # updatePromises)
                else
                  (let st2 = st1\<lparr>cart := [], checkout := \<lparr>name = [], phone = []\<rparr>,
                              showCart := False, orderMessage := Some AlertSuccess\<rparr>
                   in (st2, Post orderPayload # updatePromises))))"

section \<open>Sequences of cart operations\<close>

text \<open>
  A user event on the cart is one call of \<^verbatim>\<open>addToCart\<close> or \<^verbatim>\<open>removeFromCart\<close>; a
  sequence of events is run from left to right.
\<close>

datatype call = AddToCart addr | RemoveFromCart addr int

fun step_app :: "state \<Rightarrow> call \<Rightarrow> state" where
  "step_app st (AddToCart lesson) = addToCart lesson st"
| "step_app st (RemoveFromCart item index) = removeFromCart_app item index st"

fun step_p0 :: "state \<Rightarrow> call \<Rightarrow> state" where
  "step_p0 st (AddToCart lesson) = addToCart lesson st"
| "step_p0 st (RemoveFromCart item index) = removeFromCart_p0 item index st"

text \<open>
  The page template that issues the calls is not among the sources.  By the
  specification (4.4 and I3) \<^verbatim>\<open>addToCart\<close> receives an item of the catalog, and
  \<^verbatim>\<open>removeFromCart\<close> receives a position of the cart together with the entry at that
  position.
\<close>

fun call_ok :: "state \<Rightarrow> call \<Rightarrow> bool" where
  "call_ok st (AddToCart lesson) = (lesson \<in> set (lessons st))"
| "call_ok st (RemoveFromCart item index) =
     (0 \<le> index \<and> index < int (length (cart st)) \<and> cart st ! nat index = item)"

fun calls_ok :: "(state \<Rightarrow> call \<Rightarrow> state) \<Rightarrow> state \<Rightarrow> call list \<Rightarrow> bool" where
  "calls_ok step st [] = True"
| "calls_ok step st (c # cs) = (call_ok st c \<and> calls_ok step (step st c) cs)"

text \<open>The number of cart entries with a given id.\<close>

definition countInCart :: "state \<Rightarrow> ident \<Rightarrow> nat" where
  "countInCart st i = length (filter (\<lambda>c. l_id (heap st c) = i) (cart st))"

text \<open>The ids of the catalog identify its items.\<close>

definition ids_distinct :: "state \<Rightarrow> bool" where
  "ids_distinct st = distinct (map (\<lambda>l. l_id (heap st l)) (lessons st))"

section \<open>A concrete catalog\<close>

text \<open>
  Three lessons with 5, 3 and 0 spaces, as in the scenarios of the specification; after
  the first load they are the objects at the addresses 0, 1 and 2.
\<close>

definition lesson1 :: lesson where
  "lesson1 = \<lparr>l_id = ''1'', topic = ''Algebra'', subject = ''Math'', location = ''Hendon'',
     price = 100, space = 5, image = ''math.png''\<rparr>"

definition lesson2 :: lesson where
  "lesson2 = \<lparr>l_id = ''2'', topic = ''Poetry'', subject = ''English'', location = ''Colindale'',
     price = 80, space = 3, image = ''english.png''\<rparr>"

definition lesson3 :: lesson where
  "lesson3 = \<lparr>l_id = ''3'', topic = ''Piano'', subject = ''Music'', location = ''Brent Cross'',
     price = 90, space = 0, image = ''music.png''\<rparr>"

definition catalog :: "lesson list" where
  "catalog = [lesson1, lesson2, lesson3]"

definition net_ok :: network where
  "net_ok = \<lparr>post_result = Response True (), put_result = (\<lambda>i. Response True ()),
     get_result = Response True catalog\<rparr>"

definition loaded_app :: state where
  "loaded_app = fetchLessons (Response True catalog) data_app"

definition loaded_p0 :: state where
  "loaded_p0 = fetchLessons (Response True catalog) data_p0"

text \<open>The first lesson added to the cart twice.\<close>

definition happy_app :: state where
  "happy_app = addToCart 0 (addToCart 0 loaded_app)"

definition happy_p0 :: state where
  "happy_p0 = addToCart 0 (addToCart 0 loaded_p0)"

text \<open>
  The catalog synced again while the first lesson is in the cart: the search field is
  empty, so \<^verbatim>\<open>handleSearch\<close> loads the full list, and the server still reports 5
  spaces.  The fresh catalog is the objects at the addresses 3, 4 and 5; the cart entry is
  the object at address 0 of the former catalog.
\<close>

definition resynced_app :: state where
  "resynced_app = handleSearch (Response True catalog) (addToCart 0 loaded_app)"

definition resynced_p0 :: state where
  "resynced_p0 = handleSearch (Response True catalog) (addToCart 0 loaded_p0)"


text \<open>The cart \<open>[A, B, A]\<close>: the first lesson, the second, and the first again.\<close>

definition aba_app :: state where
  "aba_app = addToCart 0 (addToCart 1 (addToCart 0 loaded_app))"

definition aba_p0 :: state where
  "aba_p0 = addToCart 0 (addToCart 1 (addToCart 0 loaded_p0))"

text \<open>A catalog of two lessons whose subjects are equal up to case.\<close>

definition lesson4 :: lesson where
  "lesson4 = \<lparr>l_id = ''4'', topic = ''Geometry'', subject = ''math'', location = ''Hendon'',
     price = 100, space = 2, image = ''math.png''\<rparr>"

definition ties_p0 :: state where
  "ties_p0 = fetchLessons (Response True [lesson1, lesson4]) (data_p0\<lparr>sortBy := ''subject''\<rparr>)"

section \<open>Observations\<close>

text \<open>The objects that a reader of \<^verbatim>\<open>this.cart\<close> sees, entry by entry.\<close>

definition cartEntries :: "state \<Rightarrow> lesson list" where
  "cartEntries st = map (heap st) (cart st)"


text \<open>A call that leaves the first \<open>n + 1\<close> positions of the cart in place.\<close>

fun keeps_position :: "nat \<Rightarrow> call \<Rightarrow> bool" where
  "keeps_position n (AddToCart lesson) = True"
| "keeps_position n (RemoveFromCart item index) = (int n < index)"

text \<open>\<^verbatim>\<open>typeof\<close> of a field value.\<close>

fun typeof :: "jsval \<Rightarrow> string" where
  "typeof (JString s) = ''string''"
| "typeof (JNumber n) = ''number''"
| "typeof JUndefined = ''undefined''"

text \<open>The value that the comparator compares for a lesson.\<close>

definition sort_key :: "state \<Rightarrow> addr \<Rightarrow> jsval" where
  "sort_key st a = lowered (field (sortBy st) (heap st a))"

text \<open>
  Two networks that accept the order: in the first every inventory update is answered
  with a non-success status, in the second every inventory update fails without an answer.
\<close>

definition net_put_status :: network where
  "net_put_status = net_ok\<lparr>put_result := (\<lambda>i. Response False ())\<rparr>"

definition net_put_rejected :: network where
  "net_put_rejected = net_ok\<lparr>put_result := (\<lambda>i. NetworkError)\<rparr>"

section \<open>Evaluating the concrete catalog\<close>

lemmas scenario_defs = lesson1_def lesson2_def lesson3_def catalog_def net_ok_def loaded_app_def
  loaded_p0_def happy_app_def happy_p0_def data_app_def data_p0_def no_lesson_def
  fetchLessons_def set_lessons_def addToCart_def

section \<open>Properties of the cart operations\<close>

lemma findIndex_ge: "-1 \<le> findIndex p xs"
  by (induction xs) (auto simp: Let_def)

lemma findIndex_none: "(findIndex p xs = -1) = (find p xs = None)"
proof (induction xs)
  case Nil
  then show ?case by simp
next
  case (Cons y ys)
  have "-1 \<le> findIndex p ys" by (rule findIndex_ge)
  with Cons show ?case by (auto simp: Let_def)
qed

lemma findIndex_some: "find p xs = Some x \<Longrightarrow> xs ! nat (findIndex p xs) = x"
proof (induction xs)
  case Nil
  then show ?case by simp
next
  case (Cons y ys)
  show ?case
  proof (cases "p y")
    case True
    with Cons.prems show ?thesis by simp
  next
    case False
    with Cons.prems have f: "find p ys = Some x" by simp
    then have ne: "findIndex p ys \<noteq> -1" by (simp add: findIndex_none)
    with findIndex_ge[of p ys] have "0 \<le> findIndex p ys" by arith
    then have "nat (findIndex p ys + 1) = Suc (nat (findIndex p ys))" by simp
    with False ne Cons.IH[OF f] show ?thesis by (simp add: Let_def)
  qed
qed

text \<open>Both variants of \<^verbatim>\<open>removeFromCart\<close> change the store and the cart in the same way.\<close>

lemma heap_removeFromCart_app:
  "heap (removeFromCart_app item index st) =
     (case find (\<lambda>l. l_id (heap st l) = l_id (heap st item)) (lessons st) of
        Some l \<Rightarrow> (heap st)(l := (heap st l)\<lparr>space := space (heap st l) + 1\<rparr>)
      | None \<Rightarrow> heap st)"
  by (cases "find (\<lambda>l. l_id (heap st l) = l_id (heap st item)) (lessons st)")
     (auto simp: removeFromCart_app_def add_space_def Let_def findIndex_none findIndex_some)

lemma heap_removeFromCart_p0:
  "heap (removeFromCart_p0 item index st) =
     (case find (\<lambda>l. l_id (heap st l) = l_id (heap st item)) (lessons st) of
        Some l \<Rightarrow> (heap st)(l := (heap st l)\<lparr>space := space (heap st l) + 1\<rparr>)
      | None \<Rightarrow> heap st)"
  by (cases "find (\<lambda>l. l_id (heap st l) = l_id (heap st item)) (lessons st)")
     (auto simp: removeFromCart_p0_def add_space_def Let_def)

lemma cart_removeFromCart_app: "cart (removeFromCart_app item index st) = splice1 index (cart st)"
  by (simp add: removeFromCart_app_def add_space_def Let_def)

lemma cart_removeFromCart_p0: "cart (removeFromCart_p0 item index st) = splice1 index (cart st)"
  by (simp add: removeFromCart_p0_def add_space_def Let_def split: option.splits)

lemma lessons_removeFromCart_app: "lessons (removeFromCart_app item index st) = lessons st"
  by (simp add: removeFromCart_app_def add_space_def Let_def)

lemma lessons_removeFromCart_p0: "lessons (removeFromCart_p0 item index st) = lessons st"
  by (simp add: removeFromCart_p0_def add_space_def Let_def split: option.splits)

lemma l_id_addToCart [simp]: "l_id (heap (addToCart l st) a) = l_id (heap st a)"
  by (simp add: addToCart_def)

lemma l_id_removeFromCart_app [simp]:
  "l_id (heap (removeFromCart_app item index st) a) = l_id (heap st a)"
  by (simp add: heap_removeFromCart_app split: option.splits)

lemma l_id_removeFromCart_p0 [simp]:
  "l_id (heap (removeFromCart_p0 item index st) a) = l_id (heap st a)"
  by (simp add: heap_removeFromCart_p0 split: option.splits)

lemma lessons_addToCart [simp]: "lessons (addToCart l st) = lessons st"
  by (simp add: addToCart_def)

lemma step_app_frame [simp]:
  "lessons (step_app st c) = lessons st" "l_id (heap (step_app st c) a) = l_id (heap st a)"
  by (cases c; simp add: lessons_removeFromCart_app)+

lemma step_p0_frame [simp]:
  "lessons (step_p0 st c) = lessons st" "l_id (heap (step_p0 st c) a) = l_id (heap st a)"
  by (cases c; simp add: lessons_removeFromCart_p0)+

subsection \<open>Conservation of spaces\<close>

lemma splice1_in_range:
  "0 \<le> i \<Longrightarrow> i < int (length xs) \<Longrightarrow> splice1 i xs = take (nat i) xs @ drop (Suc (nat i)) xs"
  by (simp add: splice1_def Let_def min_def)

lemma filter_splice1:
  assumes "0 \<le> i" "i < int (length xs)"
  shows "length (filter P xs) =
         length (filter P (splice1 i xs)) + (if P (xs ! nat i) then 1 else 0)"
proof -
  from assms have n: "nat i < length xs" by simp
  have "xs = take (nat i) xs @ xs ! nat i # drop (Suc (nat i)) xs"
    using n by (rule id_take_nth_drop)
  then have "filter P xs = filter P (take (nat i) xs @ xs ! nat i # drop (Suc (nat i)) xs)"
    by simp
  then show ?thesis by (simp add: splice1_in_range[OF assms])
qed

lemma ids_distinct_eq:
  "ids_distinct st \<Longrightarrow> a \<in> set (lessons st) \<Longrightarrow> b \<in> set (lessons st) \<Longrightarrow>
   l_id (heap st a) = l_id (heap st b) \<Longrightarrow> a = b"
  by (auto simp: ids_distinct_def distinct_map inj_on_def)

lemma countInCart_addToCart:
  "0 < space (heap st a) \<Longrightarrow>
   countInCart (addToCart a st) i = countInCart st i + (if l_id (heap st a) = i then 1 else 0)"
  by (simp add: countInCart_def) (simp add: addToCart_def)

lemma stock_addToCart:
  assumes "ids_distinct st" "a \<in> set (lessons st)" "l \<in> set (lessons st)"
  shows "space (heap (addToCart a st) l) + int (countInCart (addToCart a st) (l_id (heap st l))) =
         space (heap st l) + int (countInCart st (l_id (heap st l)))"
proof (cases "0 < space (heap st a)")
  case False
  then show ?thesis by (simp add: addToCart_def)
next
  case True
  show ?thesis
  proof (cases "l = a")
    case True
    with \<open>0 < space (heap st a)\<close> show ?thesis
      by (simp add: countInCart_addToCart) (simp add: addToCart_def)
  next
    case False
    with assms have "l_id (heap st a) \<noteq> l_id (heap st l)"
      using ids_distinct_eq by blast
    with False \<open>0 < space (heap st a)\<close> show ?thesis
      by (simp add: countInCart_addToCart) (simp add: addToCart_def)
  qed
qed

lemma stock_remove:
  assumes d: "ids_distinct st" and l: "l \<in> set (lessons st)"
    and i: "0 \<le> index" "index < int (length (cart st))" and it: "cart st ! nat index = item"
    and h: "heap st' =
      (case find (\<lambda>l. l_id (heap st l) = l_id (heap st item)) (lessons st) of
         Some l \<Rightarrow> (heap st)(l := (heap st l)\<lparr>space := space (heap st l) + 1\<rparr>)
       | None \<Rightarrow> heap st)"
    and c: "cart st' = splice1 index (cart st)"
  shows "space (heap st' l) + int (countInCart st' (l_id (heap st l))) =
         space (heap st l) + int (countInCart st (l_id (heap st l)))"
proof -
  let ?P = "\<lambda>c. l_id (heap st c) = l_id (heap st l)"
  have ids: "\<And>a. l_id (heap st' a) = l_id (heap st a)"
    by (simp add: h split: option.splits)
  have cnt': "countInCart st' (l_id (heap st l)) = length (filter ?P (splice1 index (cart st)))"
    by (simp add: countInCart_def c ids)
  have cnt: "countInCart st (l_id (heap st l)) =
             length (filter ?P (splice1 index (cart st))) + (if ?P item then 1 else 0)"
    unfolding countInCart_def using filter_splice1[OF i, of ?P] it by simp
  show ?thesis
  proof (cases "find (\<lambda>b. l_id (heap st b) = l_id (heap st item)) (lessons st)")
    case None
    then have "\<not> ?P item"
      using l by (auto simp: find_None_iff)
    moreover have "space (heap st' l) = space (heap st l)"
      using None by (simp add: h)
    ultimately show ?thesis unfolding cnt cnt' by simp
  next
    case (Some b)
    then have b: "b \<in> set (lessons st)" "l_id (heap st b) = l_id (heap st item)"
      by (auto simp: find_Some_iff)
    show ?thesis
    proof (cases "l = b")
      case True
      with b have "?P item" by simp
      moreover have "space (heap st' l) = space (heap st l) + 1"
        using Some True by (simp add: h)
      ultimately show ?thesis unfolding cnt cnt' by simp
    next
      case False
      with d l b have "\<not> ?P item"
        using ids_distinct_eq by metis
      moreover have "space (heap st' l) = space (heap st l)"
        using Some False by (simp add: h)
      ultimately show ?thesis unfolding cnt cnt' by simp
    qed
  qed
qed

lemma stock_step_app:
  assumes "ids_distinct st" "call_ok st c" "l \<in> set (lessons st)"
  shows "space (heap (step_app st c) l) + int (countInCart (step_app st c) (l_id (heap st l))) =
         space (heap st l) + int (countInCart st (l_id (heap st l)))"
proof (cases c)
  case (AddToCart a)
  with assms show ?thesis by (simp add: stock_addToCart)
next
  case (RemoveFromCart item index)
  with assms show ?thesis
    using stock_remove[of st l index item "removeFromCart_app item index st"]
    by (simp add: heap_removeFromCart_app cart_removeFromCart_app)
qed

lemma stock_step_p0:
  assumes "ids_distinct st" "call_ok st c" "l \<in> set (lessons st)"
  shows "space (heap (step_p0 st c) l) + int (countInCart (step_p0 st c) (l_id (heap st l))) =
         space (heap st l) + int (countInCart st (l_id (heap st l)))"
proof (cases c)
  case (AddToCart a)
  with assms show ?thesis by (simp add: stock_addToCart)
next
  case (RemoveFromCart item index)
  with assms show ?thesis
    using stock_remove[of st l index item "removeFromCart_p0 item index st"]
    by (simp add: heap_removeFromCart_p0 cart_removeFromCart_p0)
qed

lemma ids_distinct_step_app: "ids_distinct st \<Longrightarrow> ids_distinct (step_app st c)"
  by (simp add: ids_distinct_def)

lemma ids_distinct_step_p0: "ids_distinct st \<Longrightarrow> ids_distinct (step_p0 st c)"
  by (simp add: ids_distinct_def)

lemma stock_run_app:
  "ids_distinct st \<Longrightarrow> calls_ok step_app st cs \<Longrightarrow> l \<in> set (lessons st) \<Longrightarrow>
   space (heap (foldl step_app st cs) l) +
   int (countInCart (foldl step_app st cs) (l_id (heap st l))) =
   space (heap st l) + int (countInCart st (l_id (heap st l)))"
proof (induction cs arbitrary: st)
  case Nil
  then show ?case by simp
next
  case (Cons c cs)
  from Cons.prems have ok: "call_ok st c" "calls_ok step_app (step_app st c) cs" by simp_all
  have "space (heap (foldl step_app (step_app st c) cs) l) +
        int (countInCart (foldl step_app (step_app st c) cs) (l_id (heap (step_app st c) l))) =
        space (heap (step_app st c) l) +
        int (countInCart (step_app st c) (l_id (heap (step_app st c) l)))"
    using Cons.prems ok by (intro Cons.IH) (simp_all add: ids_distinct_step_app)
  then show ?case
    using stock_step_app[OF Cons.prems(1) ok(1) Cons.prems(3)] by simp
qed

lemma stock_run_p0:
  "ids_distinct st \<Longrightarrow> calls_ok step_p0 st cs \<Longrightarrow> l \<in> set (lessons st) \<Longrightarrow>
   space (heap (foldl step_p0 st cs) l) +
   int (countInCart (foldl step_p0 st cs) (l_id (heap st l))) =
   space (heap st l) + int (countInCart st (l_id (heap st l)))"
proof (induction cs arbitrary: st)
  case Nil
  then show ?case by simp
next
  case (Cons c cs)
  from Cons.prems have ok: "call_ok st c" "calls_ok step_p0 (step_p0 st c) cs" by simp_all
  have "space (heap (foldl step_p0 (step_p0 st c) cs) l) +
        int (countInCart (foldl step_p0 (step_p0 st c) cs) (l_id (heap (step_p0 st c) l))) =
        space (heap (step_p0 st c) l) +
        int (countInCart (step_p0 st c) (l_id (heap (step_p0 st c) l)))"
    using Cons.prems ok by (intro Cons.IH) (simp_all add: ids_distinct_step_p0)
  then show ?case
    using stock_step_p0[OF Cons.prems(1) ok(1) Cons.prems(3)] by simp
qed

lemma calls_ok_take: "calls_ok step st cs \<Longrightarrow> calls_ok step st (take n cs)"
proof (induction cs arbitrary: st n)
  case Nil
  then show ?case by simp
next
  case (Cons c cs)
  then show ?case by (cases n) simp_all
qed

lemma space_remove_found:
  assumes d: "ids_distinct st" and l: "l \<in> set (lessons st)"
    and e: "l_id (heap st item) = l_id (heap st l)"
    and h: "heap st' =
      (case find (\<lambda>l. l_id (heap st l) = l_id (heap st item)) (lessons st) of
         Some l \<Rightarrow> (heap st)(l := (heap st l)\<lparr>space := space (heap st l) + 1\<rparr>)
       | None \<Rightarrow> heap st)"
  shows "space (heap st' l) = space (heap st l) + 1"
proof (cases "find (\<lambda>b. l_id (heap st b) = l_id (heap st item)) (lessons st)")
  case None
  with l e show ?thesis by (auto simp: find_None_iff)
next
  case (Some b)
  then have "b \<in> set (lessons st)" "l_id (heap st b) = l_id (heap st item)"
    by (auto simp: find_Some_iff)
  with d l e have "b = l" using ids_distinct_eq by metis
  with Some show ?thesis by (simp add: h)
qed

text \<open>
  Claim C3, amended.  Start from a synced catalog whose ids are distinct and an empty
  cart, and run any sequence of calls of \<^verbatim>\<open>addToCart\<close> on catalog items and of
  \<^verbatim>\<open>removeFromCart\<close> on a cart position and its entry.  After each call (after every
  prefix of the sequence), for every item of the catalog, its space plus the number of
  cart entries with its id is its space at the sync.  One call of \<^verbatim>\<open>addToCart\<close> on an
  item with a free space takes one from its space and appends the item to the cart; one
  call of \<^verbatim>\<open>removeFromCart\<close> on a position of the cart deletes the entry at that
  position and adds one to the space of the catalog item with the entry's id.  This holds
  for both files.
\<close>

theorem cart_space_conservation:
  assumes "ids_distinct st" "l \<in> set (lessons st)"
  shows "(cart st = [] \<and> calls_ok step_app st cs \<longrightarrow>
           (\<forall>n \<le> length cs.
              space (heap (foldl step_app st (take n cs)) l) +
              int (countInCart (foldl step_app st (take n cs)) (l_id (heap st l))) =
              space (heap st l))) \<and>
         (cart st = [] \<and> calls_ok step_p0 st cs \<longrightarrow>
           (\<forall>n \<le> length cs.
              space (heap (foldl step_p0 st (take n cs)) l) +
              int (countInCart (foldl step_p0 st (take n cs)) (l_id (heap st l))) =
              space (heap st l))) \<and>
         (0 < space (heap st l) \<longrightarrow>
            cart (addToCart l st) = cart st @ [l] \<and>
            space (heap (addToCart l st) l) = space (heap st l) - 1) \<and>
         (0 \<le> index \<and> index < int (length (cart st)) \<and>
          l_id (heap st (cart st ! nat index)) = l_id (heap st l) \<longrightarrow>
            cart (removeFromCart_app (cart st ! nat index) index st) =
              take (nat index) (cart st) @ drop (Suc (nat index)) (cart st) \<and>
            length (cart (removeFromCart_app (cart st ! nat index) index st)) + 1 =
              length (cart st) \<and>
            space (heap (removeFromCart_app (cart st ! nat index) index st) l) =
              space (heap st l) + 1 \<and>
            cart (removeFromCart_p0 (cart st ! nat index) index st) =
              take (nat index) (cart st) @ drop (Suc (nat index)) (cart st) \<and>
            length (cart (removeFromCart_p0 (cart st ! nat index) index st)) + 1 =
              length (cart st) \<and>
            space (heap (removeFromCart_p0 (cart st ! nat index) index st) l) =
              space (heap st l) + 1)"
proof -
  have z: "cart st = [] \<Longrightarrow> countInCart st (l_id (heap st l)) = 0"
    by (simp add: countInCart_def)
  have run_app: "cart st = [] \<and> calls_ok step_app st cs \<longrightarrow>
           (\<forall>n \<le> length cs.
              space (heap (foldl step_app st (take n cs)) l) +
              int (countInCart (foldl step_app st (take n cs)) (l_id (heap st l))) =
              space (heap st l))"
    using stock_run_app[OF assms(1) calls_ok_take assms(2), of cs] z by simp
  have run_p0: "cart st = [] \<and> calls_ok step_p0 st cs \<longrightarrow>
           (\<forall>n \<le> length cs.
              space (heap (foldl step_p0 st (take n cs)) l) +
              int (countInCart (foldl step_p0 st (take n cs)) (l_id (heap st l))) =
              space (heap st l))"
    using stock_run_p0[OF assms(1) calls_ok_take assms(2), of cs] z by simp
  have add: "0 < space (heap st l) \<longrightarrow>
            cart (addToCart l st) = cart st @ [l] \<and>
            space (heap (addToCart l st) l) = space (heap st l) - 1"
    by (simp add: addToCart_def)
  have rem: "0 \<le> index \<and> index < int (length (cart st)) \<and>
          l_id (heap st (cart st ! nat index)) = l_id (heap st l) \<longrightarrow>
            cart (removeFromCart_app (cart st ! nat index) index st) =
              take (nat index) (cart st) @ drop (Suc (nat index)) (cart st) \<and>
            length (cart (removeFromCart_app (cart st ! nat index) index st)) + 1 =
              length (cart st) \<and>
            space (heap (removeFromCart_app (cart st ! nat index) index st) l) =
              space (heap st l) + 1 \<and>
            cart (removeFromCart_p0 (cart st ! nat index) index st) =
              take (nat index) (cart st) @ drop (Suc (nat index)) (cart st) \<and>
            length (cart (removeFromCart_p0 (cart st ! nat index) index st)) + 1 =
              length (cart st) \<and>
            space (heap (removeFromCart_p0 (cart st ! nat index) index st) l) =
              space (heap st l) + 1"
  proof (intro impI)
    assume p: "0 \<le> index \<and> index < int (length (cart st)) \<and>
          l_id (heap st (cart st ! nat index)) = l_id (heap st l)"
    then have i: "0 \<le> index" "index < int (length (cart st))"
      and e: "l_id (heap st (cart st ! nat index)) = l_id (heap st l)"
      by simp_all
    have s: "splice1 index (cart st) = take (nat index) (cart st) @ drop (Suc (nat index)) (cart st)"
      using i by (rule splice1_in_range)
    from i have n: "nat index < length (cart st)" by simp
    then have len: "length (take (nat index) (cart st) @ drop (Suc (nat index)) (cart st)) + 1 =
        length (cart st)"
      by simp
    have sa: "space (heap (removeFromCart_app (cart st ! nat index) index st) l) =
        space (heap st l) + 1"
      by (rule space_remove_found[OF assms e heap_removeFromCart_app])
    have sp: "space (heap (removeFromCart_p0 (cart st ! nat index) index st) l) =
        space (heap st l) + 1"
      by (rule space_remove_found[OF assms e heap_removeFromCart_p0])
    show "cart (removeFromCart_app (cart st ! nat index) index st) =
              take (nat index) (cart st) @ drop (Suc (nat index)) (cart st) \<and>
            length (cart (removeFromCart_app (cart st ! nat index) index st)) + 1 =
              length (cart st) \<and>
            space (heap (removeFromCart_app (cart st ! nat index) index st) l) =
              space (heap st l) + 1 \<and>
            cart (removeFromCart_p0 (cart st ! nat index) index st) =
              take (nat index) (cart st) @ drop (Suc (nat index)) (cart st) \<and>
            length (cart (removeFromCart_p0 (cart st ! nat index) index st)) + 1 =
              length (cart st) \<and>
            space (heap (removeFromCart_p0 (cart st ! nat index) index st) l) =
              space (heap st l) + 1"
      unfolding cart_removeFromCart_app cart_removeFromCart_p0 s using len sa sp by simp
  qed
  from run_app run_p0 add rem show ?thesis by blast
qed

theorem cart_space_conservation_witness:
  "ids_distinct loaded_app \<and> 0 \<in> set (lessons loaded_app) \<and> cart loaded_app = [] \<and>
   calls_ok step_app loaded_app [AddToCart 0, AddToCart 0, RemoveFromCart 0 1] \<and>
   calls_ok step_p0 loaded_app [AddToCart 0, AddToCart 0, RemoveFromCart 0 1] \<and>
   space (heap (foldl step_app loaded_app [AddToCart 0, AddToCart 0]) 0) +
     int (countInCart (foldl step_app loaded_app [AddToCart 0, AddToCart 0]) ''1'') = 5 \<and>
   space (heap (foldl step_app loaded_app [AddToCart 0, AddToCart 0, RemoveFromCart 0 1]) 0) +
     int (countInCart (foldl step_app loaded_app
       [AddToCart 0, AddToCart 0, RemoveFromCart 0 1]) ''1'') = 5 \<and>
   space (heap (foldl step_p0 loaded_app [AddToCart 0, AddToCart 0, RemoveFromCart 0 1]) 0) +
     int (countInCart (foldl step_p0 loaded_app
       [AddToCart 0, AddToCart 0, RemoveFromCart 0 1]) ''1'') = 5 \<and>
   cart (addToCart 0 loaded_app) = [0] \<and> space (heap (addToCart 0 loaded_app) 0) = 4 \<and>
   ids_distinct happy_app \<and> 0 \<in> set (lessons happy_app) \<and> cart happy_app = [0, 0] \<and>
   space (heap happy_app 0) = 3 \<and>
   cart (removeFromCart_app 0 1 happy_app) = [0] \<and>
   space (heap (removeFromCart_app 0 1 happy_app) 0) = 4 \<and>
   cart (removeFromCart_p0 0 1 happy_app) = [0] \<and>
   space (heap (removeFromCart_p0 0 1 happy_app) 0) = 4"
proof -
  let ?cs = "[AddToCart 0, AddToCart 0, RemoveFromCart 0 1]"
  have a: "cart loaded_app = []" by (simp add: scenario_defs)
  have b: "ids_distinct loaded_app" by (simp add: scenario_defs ids_distinct_def)
  have c: "0 \<in> set (lessons loaded_app)" by (simp add: scenario_defs)
  have d: "calls_ok step_app loaded_app ?cs"
    by (simp add: scenario_defs)
  have d': "calls_ok step_p0 loaded_app ?cs"
    by (simp add: scenario_defs)
  have e: "l_id (heap loaded_app 0) = ''1''" "space (heap loaded_app 0) = 5"
    by (simp_all add: scenario_defs)
  note t = cart_space_conservation[OF b c, of ?cs]
  from t a d have f: "\<forall>n \<le> length ?cs.
      space (heap (foldl step_app loaded_app (take n ?cs)) 0) +
      int (countInCart (foldl step_app loaded_app (take n ?cs)) (l_id (heap loaded_app 0))) =
      space (heap loaded_app 0)"
    by blast
  from t a d' have g: "\<forall>n \<le> length ?cs.
      space (heap (foldl step_p0 loaded_app (take n ?cs)) 0) +
      int (countInCart (foldl step_p0 loaded_app (take n ?cs)) (l_id (heap loaded_app 0))) =
      space (heap loaded_app 0)"
    by blast
  from t e have h: "cart (addToCart 0 loaded_app) = cart loaded_app @ [0]"
    "space (heap (addToCart 0 loaded_app) 0) = space (heap loaded_app 0) - 1"
    by simp_all
  have t2: "take 2 ?cs = [AddToCart 0, AddToCart 0]" by (simp add: numeral_2_eq_2)
  have b': "ids_distinct happy_app" by (simp add: scenario_defs ids_distinct_def)
  have c': "0 \<in> set (lessons happy_app)" by (simp add: scenario_defs)
  have k: "cart happy_app = [0, 0]" "space (heap happy_app 0) = 3"
    by (simp_all add: scenario_defs)
  have r: "cart (removeFromCart_app 0 1 happy_app) = [0] \<and>
     space (heap (removeFromCart_app 0 1 happy_app) 0) = 4 \<and>
     cart (removeFromCart_p0 0 1 happy_app) = [0] \<and>
     space (heap (removeFromCart_p0 0 1 happy_app) 0) = 4"
    using cart_space_conservation[OF b' c', of "[]" 1] unfolding k by simp
  show ?thesis
    using a b c d d' b' c' k r h f[rule_format, of 2] f[rule_format, of 3] g[rule_format, of 3]
    unfolding e t2 by simp
qed

text \<open>
  The claim as stated fails: a catalog synced while the cart holds an entry of the first
  lesson reports 5 spaces for it, and space plus cart entries is 6, at the sync and after
  the entry is removed.
\<close>

theorem conservation_after_resync_counterexample:
  "ids_distinct resynced_p0 \<and> lessons resynced_p0 = [3, 4, 5] \<and> cart resynced_p0 = [0] \<and>
   l_id (heap resynced_p0 3) = ''1'' \<and> space (heap resynced_p0 3) = 5 \<and>
   calls_ok step_p0 resynced_p0 [RemoveFromCart 0 0] \<and>
   space (heap resynced_p0 3) + int (countInCart resynced_p0 ''1'') = 6 \<and>
   space (heap (foldl step_p0 resynced_p0 [RemoveFromCart 0 0]) 3) +
     int (countInCart (foldl step_p0 resynced_p0 [RemoveFromCart 0 0]) ''1'') = 6 \<and>
   ids_distinct resynced_app \<and> calls_ok step_app resynced_app [RemoveFromCart 0 0] \<and>
   space (heap resynced_app 3) = 5 \<and>
   space (heap (foldl step_app resynced_app [RemoveFromCart 0 0]) 3) +
     int (countInCart (foldl step_app resynced_app [RemoveFromCart 0 0]) ''1'') = 6"
  by (simp add: resynced_p0_def resynced_app_def handleSearch_def scenario_defs ids_distinct_def
      countInCart_def removeFromCart_p0_def removeFromCart_app_def add_space_def splice1_def
      Let_def)

subsection \<open>Spaces stay non-negative\<close>

lemma nonneg_addToCart:
  "\<forall>a. 0 \<le> space (heap st a) \<Longrightarrow> 0 \<le> space (heap (addToCart l st) a)"
  by (simp add: addToCart_def)

lemma nonneg_removeFromCart_app:
  "\<forall>a. 0 \<le> space (heap st a) \<Longrightarrow> 0 \<le> space (heap (removeFromCart_app item index st) a)"
  by (simp add: heap_removeFromCart_app split: option.splits)

lemma nonneg_removeFromCart_p0:
  "\<forall>a. 0 \<le> space (heap st a) \<Longrightarrow> 0 \<le> space (heap (removeFromCart_p0 item index st) a)"
  by (simp add: heap_removeFromCart_p0 split: option.splits)

lemma nonneg_run_app:
  "\<forall>a. 0 \<le> space (heap st a) \<Longrightarrow> \<forall>a. 0 \<le> space (heap (foldl step_app st cs) a)"
proof (induction cs arbitrary: st)
  case Nil
  then show ?case by simp
next
  case (Cons c cs)
  have "\<forall>a. 0 \<le> space (heap (step_app st c) a)"
    using Cons.prems by (cases c) (simp_all add: nonneg_addToCart nonneg_removeFromCart_app)
  then show ?case using Cons.IH by simp
qed

lemma nonneg_run_p0:
  "\<forall>a. 0 \<le> space (heap st a) \<Longrightarrow> \<forall>a. 0 \<le> space (heap (foldl step_p0 st cs) a)"
proof (induction cs arbitrary: st)
  case Nil
  then show ?case by simp
next
  case (Cons c cs)
  have "\<forall>a. 0 \<le> space (heap (step_p0 st c) a)"
    using Cons.prems by (cases c) (simp_all add: nonneg_addToCart nonneg_removeFromCart_p0)
  then show ?case using Cons.IH by simp
qed

text \<open>
  Claim C6.  \<^verbatim>\<open>addToCart\<close> on an item whose space is 0 returns the state it was given:
  the cart and every item's space are unchanged, and nothing is raised.  If every space
  is at least 0, it is so again after every call of a sequence of \<^verbatim>\<open>addToCart\<close> and
  \<^verbatim>\<open>removeFromCart\<close> calls, whatever their arguments, in both files.
\<close>

theorem blocked_add_and_nonnegative_space:
  "(space (heap st lesson) = 0 \<longrightarrow> addToCart lesson st = st) \<and>
   ((\<forall>a. 0 \<le> space (heap st a)) \<longrightarrow>
      (\<forall>a. 0 \<le> space (heap (foldl step_app st cs) a)) \<and>
      (\<forall>a. 0 \<le> space (heap (foldl step_p0 st cs) a)))"
  using nonneg_run_app[of st cs] nonneg_run_p0[of st cs] by (simp add: addToCart_def)

theorem blocked_add_and_nonnegative_space_witness:
  "space (heap loaded_p0 2) = 0 \<and> addToCart 2 loaded_p0 = loaded_p0 \<and>
   (\<forall>a. 0 \<le> space (heap loaded_p0 a)) \<and>
   (\<forall>a. 0 \<le> space (heap (foldl step_app loaded_p0
      [AddToCart 1, AddToCart 2, RemoveFromCart 1 0, RemoveFromCart 1 0]) a)) \<and>
   (\<forall>a. 0 \<le> space (heap (foldl step_p0 loaded_p0
      [AddToCart 1, AddToCart 2, RemoveFromCart 1 0, RemoveFromCart 1 0]) a))"
proof -
  have a: "space (heap loaded_p0 2) = 0" by (simp add: scenario_defs)
  have b: "\<forall>a. 0 \<le> space (heap loaded_p0 a)" by (simp add: scenario_defs)
  show ?thesis
    using a b blocked_add_and_nonnegative_space[of loaded_p0 2
      "[AddToCart 1, AddToCart 2, RemoveFromCart 1 0, RemoveFromCart 1 0]"]
    by simp
qed

subsection \<open>The order message after a removal\<close>

text \<open>
  Claim C10.  \<^verbatim>\<open>removeFromCart\<close> of \<^verbatim>\<open>src/app.js\<close> sets the order message to null
  exactly when the cart is empty after the removal; when entries remain, the message is
  the one before the call.
\<close>

theorem removeFromCart_app_orderMessage:
  "orderMessage (removeFromCart_app item index st) =
     (if cart (removeFromCart_app item index st) = [] then None else orderMessage st)"
  by (simp add: removeFromCart_app_def add_space_def Let_def)

theorem removeFromCart_app_orderMessage_witness:
  "cart (removeFromCart_app 0 1 (happy_app\<lparr>orderMessage := Some AlertDanger\<rparr>)) = [0] \<and>
   orderMessage (removeFromCart_app 0 1 (happy_app\<lparr>orderMessage := Some AlertDanger\<rparr>)) =
     Some AlertDanger \<and>
   cart (removeFromCart_app 0 0
     (removeFromCart_app 0 1 (happy_app\<lparr>orderMessage := Some AlertDanger\<rparr>))) = [] \<and>
   orderMessage (removeFromCart_app 0 0
     (removeFromCart_app 0 1 (happy_app\<lparr>orderMessage := Some AlertDanger\<rparr>))) = None"
proof -
  let ?s = "happy_app\<lparr>orderMessage := Some AlertDanger\<rparr>"
  have a: "cart (removeFromCart_app 0 1 ?s) = [0]"
    by (simp add: cart_removeFromCart_app splice1_def Let_def scenario_defs)
  have b: "cart (removeFromCart_app 0 0 (removeFromCart_app 0 1 ?s)) = []"
    unfolding cart_removeFromCart_app[of 0 0 "removeFromCart_app 0 1 ?s"] a
    by (simp add: splice1_def)
  show ?thesis
    using a b removeFromCart_app_orderMessage[of 0 1 ?s]
      removeFromCart_app_orderMessage[of 0 0 "removeFromCart_app 0 1 ?s"]
    by simp
qed

section \<open>Properties of the order submission\<close>

lemma updateRequests_app_msg [simp]:
  "updateRequests_app (st\<lparr>orderMessage := m\<rparr>) = updateRequests_app st"
  by (simp add: updateRequests_app_def Let_def cong: if_cong)

lemma updateRequests_p0_msg [simp]:
  "updateRequests_p0 (st\<lparr>orderMessage := m\<rparr>) = updateRequests_p0 st"
  by (simp add: updateRequests_p0_def uniqueLessonIds_def cong: option.case_cong)

lemma fetchLessons_frame:
  "cart (fetchLessons r st) = cart st" "checkout (fetchLessons r st) = checkout st"
  "orderMessage (fetchLessons r st) = orderMessage st" "showCart (fetchLessons r st) = showCart st"
  by (simp_all add: fetchLessons_def set_lessons_def split: fetch_result.splits)

text \<open>
  Claim C4.  When the POST of the order fails, by a network error or by a response with a
  non-success status, \<^verbatim>\<open>submitOrder\<close> of either file ends in the state it started
  from (the same cart, the same store and so the same spaces, the same catalog and form)
  except that the order message is the failure alert, and the POST is the only call it
  issued: no PUT.
\<close>

theorem order_failure_aborts:
  assumes "post_result net = NetworkError \<or> post_result net = Response False b"
  shows "submitOrder_app net st =
           (st\<lparr>orderMessage := Some AlertDanger\<rparr>, [Post (orderPayload_app st)]) \<and>
         submitOrder_p0 net st =
           (st\<lparr>orderMessage := Some AlertDanger\<rparr>, [Post (orderPayload_p0 st)])"
  using assms by (auto simp: submitOrder_app_def submitOrder_p0_def Let_def)

theorem order_failure_aborts_witness:
  "post_result (net_ok\<lparr>post_result := Response False ()\<rparr>) = Response False () \<and>
   submitOrder_app (net_ok\<lparr>post_result := Response False ()\<rparr>) happy_app =
     (happy_app\<lparr>orderMessage := Some AlertDanger\<rparr>, [Post (orderPayload_app happy_app)]) \<and>
   submitOrder_p0 (net_ok\<lparr>post_result := NetworkError\<rparr>) happy_p0 =
     (happy_p0\<lparr>orderMessage := Some AlertDanger\<rparr>, [Post (orderPayload_p0 happy_p0)]) \<and>
   cart (fst (submitOrder_p0 (net_ok\<lparr>post_result := NetworkError\<rparr>) happy_p0)) = [0, 0] \<and>
   space (heap (fst (submitOrder_p0 (net_ok\<lparr>post_result := NetworkError\<rparr>) happy_p0)) 0) = 3"
proof -
  have a: "cart happy_p0 = [0, 0]" "space (heap happy_p0 0) = 3"
    by (simp_all add: scenario_defs)
  show ?thesis
    using a order_failure_aborts [of "net_ok\<lparr>post_result := Response False ()\<rparr>" "()" happy_app]
      order_failure_aborts [of "net_ok\<lparr>post_result := NetworkError\<rparr>" "()" happy_p0]
    by simp
qed

lemmas submit_defs = submitOrder_p0_def submitOrder_app_def Let_def orderPayload_p0_def
  orderPayload_app_def updateRequests_p0_def updateRequests_app_def uniqueLessonIds_def uniq_def
  all_resolve_def

subsection \<open>The inventory updates\<close>

lemma uniq_fold_set:
  "set (fold (\<lambda>x acc. if x \<in> set acc then acc else acc @ [x]) xs acc) = set acc \<union> set xs"
  by (induction xs arbitrary: acc) auto

lemma uniq_fold_distinct:
  "distinct acc \<Longrightarrow> distinct (fold (\<lambda>x acc. if x \<in> set acc then acc else acc @ [x]) xs acc)"
  by (induction xs arbitrary: acc) auto

lemma set_uniq [simp]: "set (uniq xs) = set xs"
  by (simp add: uniq_def uniq_fold_set)

lemma distinct_uniq [simp]: "distinct (uniq xs)"
  by (simp add: uniq_def uniq_fold_distinct)










text \<open>
  \<^verbatim>\<open>submitOrder\<close> of \<^verbatim>\<open>src/app.js\<close> on the happy path: the space of the lesson
  is 3 after the two calls of \<^verbatim>\<open>addToCart\<close>, and the update subtracts the two cart
  entries once more.
\<close>

lemma submitOrder_app_happy_path_requests:
  "space (heap happy_app 0) = 3 \<and>
   snd (submitOrder_app net_ok happy_app) =
     [Post (orderPayload_app happy_app), Put ''1'' 1, GetLessons]"
  by (simp add: scenario_defs submit_defs)

subsection \<open>The order payload\<close>

text \<open>
  Claim C2, amended.  The payload that \<^verbatim>\<open>submitOrder\<close> posts has one line for each
  cart entry, in the order of the cart, with the id of the entry.  In \<^verbatim>\<open>src/app.js\<close>
  the quantity of a line is the number of cart entries with its id; in
  \<^verbatim>\<open>src/unnamed/part_000\<close> the quantity of every line is 1.
\<close>

theorem order_payload_lines:
  "map line_id (order_lessons (orderPayload_app st)) = map (\<lambda>c. l_id (heap st c)) (cart st) \<and>
   map quantity (order_lessons (orderPayload_app st)) =
     map (\<lambda>c. int (countInCart st (l_id (heap st c)))) (cart st) \<and>
   map line_id (order_lessons (orderPayload_p0 st)) = map (\<lambda>c. l_id (heap st c)) (cart st) \<and>
   map quantity (order_lessons (orderPayload_p0 st)) = map (\<lambda>c. 1) (cart st) \<and>
   hd (snd (submitOrder_app net st)) = Post (orderPayload_app st) \<and>
   hd (snd (submitOrder_p0 net st)) = Post (orderPayload_p0 st)"
  by (simp add: orderPayload_app_def orderPayload_p0_def countInCart_def comp_def
      submitOrder_app_def submitOrder_p0_def Let_def split: fetch_result.splits)

text \<open>
  The claim as stated fails: for the cart \<open>[A, B, A]\<close> the payload of \<^verbatim>\<open>src/app.js\<close>
  has three lines, two of them for \<open>A\<close>.
\<close>

theorem order_payload_lines_counterexample:
  "map (\<lambda>c. l_id (heap aba_app c)) (cart aba_app) = [''1'', ''2'', ''1''] \<and>
   map line_id (order_lessons (orderPayload_app aba_app)) = [''1'', ''2'', ''1''] \<and>
   map quantity (order_lessons (orderPayload_app aba_app)) = [2, 1, 2] \<and>
   length (filter (\<lambda>l. line_id l = ''1'') (order_lessons (orderPayload_app aba_app))) = 2 \<and>
   map line_id (order_lessons (orderPayload_p0 aba_p0)) = [''1'', ''2'', ''1''] \<and>
   map quantity (order_lessons (orderPayload_p0 aba_p0)) = [1, 1, 1]"
  by (simp add: aba_app_def aba_p0_def scenario_defs orderPayload_app_def orderPayload_p0_def)

subsection \<open>Failed inventory updates\<close>

text \<open>
  Claim C5, amended.  When the POST of the order succeeds and every inventory update
  that is issued resolves with a response, whatever its status, \<^verbatim>\<open>submitOrder\<close> of
  either file finalizes: the cart is empty, the checkout form is cleared and the order
  message is the success alert.
\<close>

theorem update_status_not_inspected:
  assumes "post_result net = Response True b"
  shows "(all_resolve net (updateRequests_app st) \<longrightarrow>
            cart (fst (submitOrder_app net st)) = [] \<and>
            checkout (fst (submitOrder_app net st)) = \<lparr>name = [], phone = []\<rparr> \<and>
            orderMessage (fst (submitOrder_app net st)) = Some AlertSuccess) \<and>
         (all_resolve net (updateRequests_p0 st) \<longrightarrow>
            cart (fst (submitOrder_p0 net st)) = [] \<and>
            checkout (fst (submitOrder_p0 net st)) = \<lparr>name = [], phone = []\<rparr> \<and>
            orderMessage (fst (submitOrder_p0 net st)) = Some AlertSuccess)"
  using assms by (simp add: submitOrder_app_def submitOrder_p0_def Let_def fetchLessons_frame)

theorem update_status_not_inspected_witness:
  "post_result net_put_status = Response True () \<and>
   put_result net_put_status ''1'' = Response False () \<and>
   snd (submitOrder_p0 net_put_status happy_p0) = [Post (orderPayload_p0 happy_p0), Put ''1'' 3] \<and>
   all_resolve net_put_status (updateRequests_app happy_app) \<and>
   all_resolve net_put_status (updateRequests_p0 happy_p0) \<and>
   cart (fst (submitOrder_app net_put_status happy_app)) = [] \<and>
   orderMessage (fst (submitOrder_app net_put_status happy_app)) = Some AlertSuccess \<and>
   cart (fst (submitOrder_p0 net_put_status happy_p0)) = [] \<and>
   checkout (fst (submitOrder_p0 net_put_status happy_p0)) = \<lparr>name = [], phone = []\<rparr> \<and>
   orderMessage (fst (submitOrder_p0 net_put_status happy_p0)) = Some AlertSuccess"
proof -
  have a: "post_result net_put_status = Response True ()"
    "put_result net_put_status ''1'' = Response False ()"
    by (simp_all add: net_put_status_def net_ok_def)
  have b: "all_resolve net_put_status (updateRequests_app happy_app)"
    "all_resolve net_put_status (updateRequests_p0 happy_p0)"
    by (simp_all add: net_put_status_def scenario_defs submit_defs)
  have c: "snd (submitOrder_p0 net_put_status happy_p0) =
      [Post (orderPayload_p0 happy_p0), Put ''1'' 3]"
    by (simp add: net_put_status_def scenario_defs submit_defs)
  show ?thesis
    using a b c
      update_status_not_inspected[OF a(1), of happy_app]
      update_status_not_inspected[OF a(1), of happy_p0]
    by simp
qed

text \<open>
  The claim as stated fails: an inventory update that settles by rejecting (a network
  error) makes \<^verbatim>\<open>Promise.all\<close> throw; the cart is kept and the order message is the
  failure alert.
\<close>

theorem update_rejection_counterexample:
  "post_result net_put_rejected = Response True () \<and>
   snd (submitOrder_p0 net_put_rejected happy_p0) = [Post (orderPayload_p0 happy_p0), Put ''1'' 3] \<and>
   put_result net_put_rejected ''1'' = NetworkError \<and>
   cart (fst (submitOrder_p0 net_put_rejected happy_p0)) = [0, 0] \<and>
   orderMessage (fst (submitOrder_p0 net_put_rejected happy_p0)) = Some AlertDanger \<and>
   cart (fst (submitOrder_app net_put_rejected happy_app)) = [0, 0] \<and>
   orderMessage (fst (submitOrder_app net_put_rejected happy_app)) = Some AlertDanger"
  by (simp add: net_put_rejected_def scenario_defs submit_defs)

section \<open>Cart entries are references\<close>

lemma splice1_keeps:
  assumes "n < length xs" "int n < i"
  shows "n < length (splice1 i xs) \<and> splice1 i xs ! n = xs ! n"
proof (cases "i < int (length xs)")
  case True
  with assms have "splice1 i xs = take (nat i) xs @ drop (Suc (nat i)) xs"
    by (simp add: splice1_in_range)
  moreover from assms True have "n < nat i" "nat i < length xs" by simp_all
  ultimately show ?thesis by (simp add: nth_append)
next
  case False
  with assms have "splice1 i xs = xs" by (simp add: splice1_def Let_def min_def)
  with assms show ?thesis by simp
qed

lemma step_keeps_app:
  assumes "n < length (cart st)" "keeps_position n c"
  shows "n < length (cart (step_app st c)) \<and> cart (step_app st c) ! n = cart st ! n"
proof (cases c)
  case (AddToCart l)
  with assms show ?thesis by (simp add: addToCart_def nth_append)
next
  case (RemoveFromCart item index)
  with assms show ?thesis by (simp add: cart_removeFromCart_app splice1_keeps)
qed

lemma step_keeps_p0:
  assumes "n < length (cart st)" "keeps_position n c"
  shows "n < length (cart (step_p0 st c)) \<and> cart (step_p0 st c) ! n = cart st ! n"
proof (cases c)
  case (AddToCart l)
  with assms show ?thesis by (simp add: addToCart_def nth_append)
next
  case (RemoveFromCart item index)
  with assms show ?thesis by (simp add: cart_removeFromCart_p0 splice1_keeps)
qed

lemma run_keeps_app:
  "n < length (cart st) \<Longrightarrow> list_all (keeps_position n) cs \<Longrightarrow>
   n < length (cart (foldl step_app st cs)) \<and> cart (foldl step_app st cs) ! n = cart st ! n"
proof (induction cs arbitrary: st)
  case Nil
  then show ?case by simp
next
  case (Cons c cs)
  from Cons.prems have k: "keeps_position n c" "list_all (keeps_position n) cs" by simp_all
  from step_keeps_app[OF Cons.prems(1) k(1)] Cons.IH[of "step_app st c"] k(2)
  show ?case by simp
qed

lemma run_keeps_p0:
  "n < length (cart st) \<Longrightarrow> list_all (keeps_position n) cs \<Longrightarrow>
   n < length (cart (foldl step_p0 st cs)) \<and> cart (foldl step_p0 st cs) ! n = cart st ! n"
proof (induction cs arbitrary: st)
  case Nil
  then show ?case by simp
next
  case (Cons c cs)
  from Cons.prems have k: "keeps_position n c" "list_all (keeps_position n) cs" by simp_all
  from step_keeps_p0[OF Cons.prems(1) k(1)] Cons.IH[of "step_p0 st c"] k(2)
  show ?case by simp
qed

text \<open>
  Claim C9.  A successful \<^verbatim>\<open>addToCart\<close> appends the address of the object it
  received; the new entry reads the object, so its space is the decremented one.  After
  any further calls that leave the entry at its position (calls of \<^verbatim>\<open>addToCart\<close>,
  and calls of \<^verbatim>\<open>removeFromCart\<close> on later positions), the entry still reads the
  current value of the object, and any value \<open>v\<close> written to the object is read through
  the entry.
\<close>

theorem cart_entries_are_references:
  assumes "0 < space (heap st lesson)"
  shows "cart (addToCart lesson st) = cart st @ [lesson] \<and>
         cartEntries (addToCart lesson st) ! length (cart st) = heap (addToCart lesson st) lesson \<and>
         space (cartEntries (addToCart lesson st) ! length (cart st)) = space (heap st lesson) - 1 \<and>
         (list_all (keeps_position (length (cart st))) cs \<longrightarrow>
            cartEntries (foldl step_app (addToCart lesson st) cs) ! length (cart st) =
              heap (foldl step_app (addToCart lesson st) cs) lesson \<and>
            cartEntries (foldl step_p0 (addToCart lesson st) cs) ! length (cart st) =
              heap (foldl step_p0 (addToCart lesson st) cs) lesson \<and>
            cartEntries ((foldl step_p0 (addToCart lesson st) cs)
                \<lparr>heap := (heap (foldl step_p0 (addToCart lesson st) cs))(lesson := v)\<rparr>)
              ! length (cart st) = v)"
proof -
  let ?n = "length (cart st)"
  let ?st = "addToCart lesson st"
  have c: "cart ?st = cart st @ [lesson]" using assms by (simp add: addToCart_def)
  then have n: "?n < length (cart ?st)" "cart ?st ! ?n = lesson" by simp_all
  have e: "cartEntries ?st ! ?n = heap ?st lesson"
    using n by (simp add: cartEntries_def)
  have s: "space (heap ?st lesson) = space (heap st lesson) - 1"
    using assms by (simp add: addToCart_def)
  have r: "list_all (keeps_position ?n) cs \<Longrightarrow>
      cartEntries (foldl step_app ?st cs) ! ?n = heap (foldl step_app ?st cs) lesson \<and>
      cartEntries (foldl step_p0 ?st cs) ! ?n = heap (foldl step_p0 ?st cs) lesson \<and>
      cartEntries ((foldl step_p0 ?st cs)\<lparr>heap := (heap (foldl step_p0 ?st cs))(lesson := v)\<rparr>) ! ?n = v"
    using run_keeps_app[OF n(1), of cs] run_keeps_p0[OF n(1), of cs] n(2)
    by (simp add: cartEntries_def)
  from c e s r show ?thesis by simp
qed

theorem cart_entries_are_references_witness:
  "0 < space (heap loaded_p0 0) \<and> cart (addToCart 0 loaded_p0) = [0] \<and>
   space (cartEntries (addToCart 0 loaded_p0) ! 0) = 4 \<and>
   list_all (keeps_position 0) [AddToCart 0, AddToCart 1, RemoveFromCart 1 2] \<and>
   cart (foldl step_p0 (addToCart 0 loaded_p0) [AddToCart 0, AddToCart 1, RemoveFromCart 1 2]) =
     [0, 0] \<and>
   space (cartEntries (foldl step_p0 (addToCart 0 loaded_p0)
     [AddToCart 0, AddToCart 1, RemoveFromCart 1 2]) ! 0) = 3 \<and>
   space (cartEntries (foldl step_app (addToCart 0 loaded_p0)
     [AddToCart 0, AddToCart 1, RemoveFromCart 1 2]) ! 0) = 3"
proof -
  let ?cs = "[AddToCart 0, AddToCart 1, RemoveFromCart 1 2]"
  have a: "0 < space (heap loaded_p0 0)" by (simp add: scenario_defs)
  have a': "space (heap loaded_p0 0) = 5" "cart loaded_p0 = []" by (simp_all add: scenario_defs)
  have k: "list_all (keeps_position 0) ?cs" by simp
  have c: "cart (foldl step_p0 (addToCart 0 loaded_p0) ?cs) = [0, 0]"
    by (simp add: cart_removeFromCart_p0 splice1_def) (simp add: scenario_defs)
  have h: "space (heap (foldl step_p0 (addToCart 0 loaded_p0) ?cs) 0) = 3"
    "space (heap (foldl step_app (addToCart 0 loaded_p0) ?cs) 0) = 3"
    by (simp_all add: heap_removeFromCart_p0 heap_removeFromCart_app) (simp_all add: scenario_defs)
  have k': "list_all (keeps_position (length (cart loaded_p0))) ?cs" by (simp add: a')
  note t = cart_entries_are_references[OF a, of ?cs]
  from t k' have e:
    "cartEntries (foldl step_p0 (addToCart 0 loaded_p0) ?cs) ! length (cart loaded_p0) =
       heap (foldl step_p0 (addToCart 0 loaded_p0) ?cs) 0"
    "cartEntries (foldl step_app (addToCart 0 loaded_p0) ?cs) ! length (cart loaded_p0) =
       heap (foldl step_app (addToCart 0 loaded_p0) ?cs) 0"
    by blast+
  from t have f: "cart (addToCart 0 loaded_p0) = cart loaded_p0 @ [0]"
    "space (cartEntries (addToCart 0 loaded_p0) ! length (cart loaded_p0)) =
       space (heap loaded_p0 0) - 1"
    by blast+
  show ?thesis
    using a k c e f h unfolding a' by simp
qed

section \<open>Properties of the sort engine\<close>

lemmas sort_defs = sortedLessons_app_def sortedLessons_p0_def compareLessons_def field_def
  toLowerCase_def lower_char_def Let_def

subsection \<open>The stable sort\<close>

lemma set_insert_sorted [simp]: "set (insert_sorted c x ys) = insert x (set ys)"
  by (induction ys) auto

lemma set_array_sort [simp]: "set (array_sort c xs) = set xs"
  by (induction xs) auto

lemma sorted_insert_sorted:
  assumes s: "sorted_wrt (\<lambda>a b. c a b \<le> 0) ys"
    and tot: "\<forall>y \<in> set ys. 0 < c x y \<longrightarrow> c y x \<le> 0"
    and tr: "\<forall>y \<in> set ys. \<forall>z \<in> set ys. c x y \<le> 0 \<longrightarrow> c y z \<le> 0 \<longrightarrow> c x z \<le> 0"
  shows "sorted_wrt (\<lambda>a b. c a b \<le> 0) (insert_sorted c x ys)"
  using assms
proof (induction ys)
  case Nil
  show ?case by simp
next
  case (Cons y ys)
  from Cons.prems(1) have sy: "\<forall>z \<in> set ys. c y z \<le> 0"
    and sys: "sorted_wrt (\<lambda>a b. c a b \<le> 0) ys"
    by simp_all
  show ?case
  proof (cases "c x y \<le> 0")
    case True
    have "\<forall>z \<in> set ys. c x z \<le> 0"
    proof
      fix z
      assume z: "z \<in> set ys"
      with sy have "c y z \<le> 0" by blast
      moreover have "y \<in> set (y # ys)" "z \<in> set (y # ys)" using z by simp_all
      ultimately show "c x z \<le> 0" using Cons.prems(3) True by blast
    qed
    with True sy sys show ?thesis by simp
  next
    case False
    then have "0 < c x y" by simp
    moreover have "y \<in> set (y # ys)" by simp
    ultimately have yx: "c y x \<le> 0" using Cons.prems(2) by blast
    have t1: "\<forall>y \<in> set ys. 0 < c x y \<longrightarrow> c y x \<le> 0"
      using Cons.prems(2) by simp
    have t2: "\<forall>y \<in> set ys. \<forall>z \<in> set ys. c x y \<le> 0 \<longrightarrow> c y z \<le> 0 \<longrightarrow> c x z \<le> 0"
    proof (intro ballI impI)
      fix u v
      assume "u \<in> set ys" "v \<in> set ys" "c x u \<le> 0" "c u v \<le> 0"
      moreover from this have "u \<in> set (y # ys)" "v \<in> set (y # ys)" by simp_all
      ultimately show "c x v \<le> 0" using Cons.prems(3) by blast
    qed
    have "sorted_wrt (\<lambda>a b. c a b \<le> 0) (insert_sorted c x ys)"
      by (rule Cons.IH[OF sys t1 t2])
    with False yx sy show ?thesis by simp
  qed
qed

lemma sorted_array_sort:
  assumes tot: "\<forall>x \<in> set xs. \<forall>y \<in> set xs. 0 < c x y \<longrightarrow> c y x \<le> 0"
    and tr: "\<forall>x \<in> set xs. \<forall>y \<in> set xs. \<forall>z \<in> set xs.
               c x y \<le> 0 \<longrightarrow> c y z \<le> 0 \<longrightarrow> c x z \<le> 0"
  shows "sorted_wrt (\<lambda>a b. c a b \<le> 0) (array_sort c xs)"
  using assms
proof (induction xs)
  case Nil
  show ?case by simp
next
  case (Cons x xs)
  have sub: "\<And>u. u \<in> set xs \<Longrightarrow> u \<in> set (x # xs)" by simp
  have s: "sorted_wrt (\<lambda>a b. c a b \<le> 0) (array_sort c xs)"
  proof (rule Cons.IH)
    show "\<forall>x \<in> set xs. \<forall>y \<in> set xs. 0 < c x y \<longrightarrow> c y x \<le> 0"
      using Cons.prems(1) sub by blast
    show "\<forall>x \<in> set xs. \<forall>y \<in> set xs. \<forall>z \<in> set xs.
            c x y \<le> 0 \<longrightarrow> c y z \<le> 0 \<longrightarrow> c x z \<le> 0"
      using Cons.prems(2) sub by blast
  qed
  have x: "x \<in> set (x # xs)" by simp
  have "sorted_wrt (\<lambda>a b. c a b \<le> 0) (insert_sorted c x (array_sort c xs))"
  proof (rule sorted_insert_sorted[OF s])
    show "\<forall>y \<in> set (array_sort c xs). 0 < c x y \<longrightarrow> c y x \<le> 0"
      unfolding set_array_sort using Cons.prems(1) sub x by blast
    show "\<forall>y \<in> set (array_sort c xs). \<forall>z \<in> set (array_sort c xs).
            c x y \<le> 0 \<longrightarrow> c y z \<le> 0 \<longrightarrow> c x z \<le> 0"
      unfolding set_array_sort using Cons.prems(2) sub x by blast
  qed
  then show ?case by simp
qed

text \<open>A sequence that is in the comparator's order is returned as it is.\<close>

lemma array_sort_sorted:
  "sorted_wrt (\<lambda>a b. c a b \<le> 0) xs \<Longrightarrow> array_sort c xs = xs"
proof (induction xs)
  case Nil
  then show ?case by simp
next
  case (Cons x xs)
  then show ?case by (cases xs) simp_all
qed

lemma insert_sorted_last:
  "\<forall>z \<in> set zs. 0 < c y z \<Longrightarrow> insert_sorted c y zs = zs @ [y]"
  by (induction zs) auto

text \<open>A sequence that strictly descends in the comparator's order is reversed.\<close>

lemma array_sort_rev:
  "sorted_wrt (\<lambda>a b. 0 < c a b) xs \<Longrightarrow> array_sort c xs = rev xs"
proof (induction xs)
  case Nil
  then show ?case by simp
next
  case (Cons x xs)
  then show ?case by (simp add: insert_sorted_last)
qed

lemma distinct_map_insert_sorted:
  "distinct (map k (insert_sorted c x ys)) = (k x \<notin> k ` set ys \<and> distinct (map k ys))"
  by (induction ys) auto

lemma distinct_map_array_sort:
  "distinct (map k (array_sort c xs)) = distinct (map k xs)"
  by (induction xs) (auto simp: distinct_map_insert_sorted)

lemma sorted_wrt_distinct:
  "sorted_wrt P ys \<Longrightarrow> distinct (map k ys) \<Longrightarrow> sorted_wrt (\<lambda>a b. P a b \<and> k a \<noteq> k b) ys"
  by (induction ys) auto

subsection \<open>The comparator\<close>

lemma typeof_field: "typeof (lowered (field f x)) = typeof (lowered (field f y))"
  by (simp add: field_def)

lemma js_less_greater: "js_less u v = js_greater v u"
  by (cases u; cases v) simp_all

lemma js_greater_asym: "js_greater u v \<Longrightarrow> \<not> js_greater v u"
  by (cases u; cases v) simp_all

lemma js_greater_trans:
  "typeof u = typeof v \<Longrightarrow> typeof v = typeof w \<Longrightarrow>
   \<not> js_greater u v \<Longrightarrow> \<not> js_greater v w \<Longrightarrow> \<not> js_greater u w"
  by (cases u; cases v; cases w) auto

lemma js_greater_neq:
  "typeof u = typeof v \<Longrightarrow> u \<noteq> v \<Longrightarrow> \<not> js_greater u v \<Longrightarrow> js_greater v u"
  by (cases u; cases v) auto

lemma compareLessons_le:
  "compareLessons h f d a b \<le> 0 \<longleftrightarrow>
     (if d = ''asc'' then \<not> js_greater (lowered (field f (h a))) (lowered (field f (h b)))
      else \<not> js_greater (lowered (field f (h b))) (lowered (field f (h a))))"
  using js_greater_asym[of "lowered (field f (h a))" "lowered (field f (h b))"]
  by (auto simp: compareLessons_def Let_def js_less_greater)

lemma compareLessons_pos:
  "0 < compareLessons h f d a b \<longleftrightarrow>
     (if d = ''asc'' then js_greater (lowered (field f (h a))) (lowered (field f (h b)))
      else js_greater (lowered (field f (h b))) (lowered (field f (h a))))"
  using js_greater_asym[of "lowered (field f (h a))" "lowered (field f (h b))"]
  by (auto simp: compareLessons_def Let_def js_less_greater)

lemma compareLessons_total:
  "0 < compareLessons h f d a b \<Longrightarrow> compareLessons h f d b a \<le> 0"
  using js_greater_asym by (auto simp: compareLessons_le compareLessons_pos split: if_splits)

lemma compareLessons_trans:
  "compareLessons h f d a b \<le> 0 \<Longrightarrow> compareLessons h f d b c \<le> 0 \<Longrightarrow>
   compareLessons h f d a c \<le> 0"
  using js_greater_trans[OF typeof_field typeof_field, of f "h a" "h b" "h c"]
        js_greater_trans[OF typeof_field typeof_field, of f "h c" "h b" "h a"]
  by (auto simp: compareLessons_le split: if_splits)

lemma sorted_compareLessons:
  "sorted_wrt (\<lambda>a b. compareLessons h f d a b \<le> 0) (array_sort (compareLessons h f d) xs)"
proof (rule sorted_array_sort)
  show "\<forall>x \<in> set xs. \<forall>y \<in> set xs.
          0 < compareLessons h f d x y \<longrightarrow> compareLessons h f d y x \<le> 0"
    using compareLessons_total by blast
  show "\<forall>x \<in> set xs. \<forall>y \<in> set xs. \<forall>z \<in> set xs.
          compareLessons h f d x y \<le> 0 \<longrightarrow> compareLessons h f d y z \<le> 0 \<longrightarrow>
          compareLessons h f d x z \<le> 0"
    using compareLessons_trans by blast
qed

lemma array_sort_idem:
  "array_sort (compareLessons h f d) (array_sort (compareLessons h f d) xs) =
   array_sort (compareLessons h f d) xs"
  by (rule array_sort_sorted) (rule sorted_compareLessons)

lemma array_sort_desc_asc:
  assumes "distinct (map (\<lambda>a. lowered (field f (h a))) xs)" "d \<noteq> ''asc''"
  shows "array_sort (compareLessons h f d) (array_sort (compareLessons h f ''asc'') xs) =
         rev (array_sort (compareLessons h f ''asc'') xs)"
proof -
  let ?k = "\<lambda>a. lowered (field f (h a))"
  let ?ys = "array_sort (compareLessons h f ''asc'') xs"
  have "distinct (map ?k ?ys)" using assms(1) by (simp add: distinct_map_array_sort)
  with sorted_compareLessons[of h f "''asc''" xs]
  have "sorted_wrt (\<lambda>a b. compareLessons h f ''asc'' a b \<le> 0 \<and> ?k a \<noteq> ?k b) ?ys"
    by (rule sorted_wrt_distinct)
  then have "sorted_wrt (\<lambda>a b. 0 < compareLessons h f d a b) ?ys"
  proof (rule sorted_wrt_mono_rel[rotated])
    fix a b
    assume "compareLessons h f ''asc'' a b \<le> 0 \<and> ?k a \<noteq> ?k b"
    then have "js_greater (?k b) (?k a)"
      using js_greater_neq[OF typeof_field, of f "h a" "h b"] by (simp add: compareLessons_le)
    then show "0 < compareLessons h f d a b"
      using assms(2) by (simp add: compareLessons_pos)
  qed
  then show ?thesis by (rule array_sort_rev)
qed

text \<open>
  Claim C8, amended.  Sorting the sorted sequence again with the same field and
  direction returns it unchanged.  When the compared values of the lessons (the field,
  lower-cased if it is a string) are pairwise distinct, sorting the ascending sequence in
  descending direction returns its reverse.
\<close>

theorem resort_same_and_reverse:
  "fst (sortedLessons_p0 (st\<lparr>lessons := fst (sortedLessons_p0 st)\<rparr>)) = fst (sortedLessons_p0 st) \<and>
   fst (sortedLessons_app (snd (sortedLessons_app st))) = fst (sortedLessons_app st) \<and>
   (distinct (map (sort_key st) (lessons st)) \<longrightarrow>
      fst (sortedLessons_p0 (st\<lparr>lessons := fst (sortedLessons_p0 (st\<lparr>sortOrder := ''asc''\<rparr>)),
                                sortOrder := ''desc''\<rparr>)) =
        rev (fst (sortedLessons_p0 (st\<lparr>sortOrder := ''asc''\<rparr>))) \<and>
      fst (sortedLessons_app ((snd (sortedLessons_app (st\<lparr>sortOrder := ''asc''\<rparr>)))\<lparr>sortOrder := ''desc''\<rparr>)) =
        rev (fst (sortedLessons_app (st\<lparr>sortOrder := ''asc''\<rparr>))))"
proof -
  have k: "map (sort_key st) (lessons st) = map (\<lambda>a. lowered (field (sortBy st) (heap st a))) (lessons st)"
    by (simp add: sort_key_def)
  have d: "''desc'' \<noteq> ''asc''" by simp
  show ?thesis
    unfolding k
    using array_sort_desc_asc[OF _ d, of "sortBy st" "heap st" "lessons st"]
    by (simp add: sortedLessons_p0_def sortedLessons_app_def Let_def array_sort_idem)
qed

theorem resort_same_and_reverse_witness:
  "distinct (map (sort_key loaded_p0) (lessons loaded_p0)) \<and>
   fst (sortedLessons_p0 (loaded_p0\<lparr>sortOrder := ''asc''\<rparr>)) = [0, 2, 1] \<and>
   fst (sortedLessons_p0 (loaded_p0\<lparr>lessons := [0, 2, 1], sortOrder := ''desc''\<rparr>)) = [1, 2, 0]"
proof -
  have a: "distinct (map (sort_key loaded_p0) (lessons loaded_p0))"
    by (simp add: sort_key_def scenario_defs sort_defs)
  have b: "fst (sortedLessons_p0 (loaded_p0\<lparr>sortOrder := ''asc''\<rparr>)) = [0, 2, 1]"
    by (simp add: scenario_defs sort_defs)
  show ?thesis using a b resort_same_and_reverse[of loaded_p0] by simp
qed

text \<open>
  The claim as stated fails: two lessons whose subjects are equal up to case keep their
  order in both directions, so the descending sequence is not the reverse of the
  ascending one.
\<close>

theorem resort_ties_counterexample:
  "fst (sortedLessons_p0 (ties_p0\<lparr>sortOrder := ''asc''\<rparr>)) = [0, 1] \<and>
   fst (sortedLessons_p0 (ties_p0\<lparr>lessons := fst (sortedLessons_p0 (ties_p0\<lparr>sortOrder := ''asc''\<rparr>)),
         sortOrder := ''desc''\<rparr>)) = [0, 1] \<and>
   fst (sortedLessons_p0 (ties_p0\<lparr>lessons := fst (sortedLessons_p0 (ties_p0\<lparr>sortOrder := ''asc''\<rparr>)),
         sortOrder := ''desc''\<rparr>)) \<noteq> rev (fst (sortedLessons_p0 (ties_p0\<lparr>sortOrder := ''asc''\<rparr>)))"
  by (simp add: ties_p0_def lesson4_def scenario_defs sort_defs)

subsection \<open>The catalog after sorting\<close>

text \<open>
  Claim C7.  \<^verbatim>\<open>sortedLessons\<close> of \<^verbatim>\<open>src/app.js\<close> sorts \<^verbatim>\<open>this.lessons\<close> itself:
  the catalog loaded as Math, English, Music is English, Math, Music after the sorted
  sequence was computed by subject.
\<close>

theorem sortedLessons_app_sorts_in_place:
  "lessons loaded_app = [0, 1, 2] \<and> fst (sortedLessons_app loaded_app) = [1, 0, 2] \<and>
   lessons (snd (sortedLessons_app loaded_app)) = [1, 0, 2]"
  by (simp add: scenario_defs sort_defs)

text \<open>\<^verbatim>\<open>sortedLessons\<close> of \<^verbatim>\<open>src/unnamed/part_000\<close> leaves the state as it is.\<close>

lemma sortedLessons_p0_frame: "snd (sortedLessons_p0 st) = st"
  by (simp add: sortedLessons_p0_def Let_def)


end
